theory Spec2Isabelle
  imports Complex_Main "HOL-Library.Word"
begin

unbundle bit_operations_syntax

section \<open>Data model\<close>

text \<open>
  The program is \<^verbatim>\<open>tools/audio2fseq.py\<close>. PCM samples are Python integers
  (\<^typ>\<open>int\<close>), a \<^verbatim>\<open>bytes\<close> or \<^verbatim>\<open>bytearray\<close> value is a list of
  8-bit words, and every exception or \<^verbatim>\<open>sys.exit\<close> of the source is a value of
  \<open>py_error\<close>, returned on the left of a sum.
\<close>

type_synonym byte = "8 word"

datatype py_error =
    ValueError
  | StructError
  | ZeroDivisionError
  | OverflowError
  | AssertionError
  | SystemExit

definition SYNC_MARKER :: "byte list" where
  "SYNC_MARKER = [0xAA, 0x55]"

definition FSEQ_MAGIC :: "byte list" where
  "FSEQ_MAGIC = [0x50, 0x53, 0x45, 0x51]"

subsection \<open>Python slices\<close>

text \<open>
  \<^verbatim>\<open>xs[a:b]\<close> never raises: a negative bound counts from the end and both bounds
  are clipped to the list. \<open>slice_index\<close> is that normalisation of one bound.
\<close>

definition slice_index :: "int \<Rightarrow> nat \<Rightarrow> nat" where
  "slice_index i n = (if i < 0 then nat (max 0 (int n + i)) else min (nat i) n)"

definition py_slice :: "'a list \<Rightarrow> int \<Rightarrow> int \<Rightarrow> 'a list" where
  "py_slice xs a b =
     (let lo = slice_index a (length xs); hi = slice_index b (length xs)
      in take (hi - lo) (drop lo xs))"

text \<open>
  \<^verbatim>\<open>xs[a:b] = ys\<close> on a bytearray replaces the slice by \<open>ys\<close>, whatever the
  length of \<open>ys\<close>; an empty slice (upper bound below the lower one) inserts at the lower
  bound.
\<close>

definition py_slice_assign :: "'a list \<Rightarrow> int \<Rightarrow> int \<Rightarrow> 'a list \<Rightarrow> 'a list" where
  "py_slice_assign xs a b ys =
     (let lo = slice_index a (length xs); hi = slice_index b (length xs)
      in take lo xs @ ys @ drop (max lo hi) xs)"

section \<open>SampleTransform: \<^verbatim>\<open>to_mono\<close>\<close>

text \<open>
  \<^verbatim>\<open>range(0, stop, step)\<close> for \<open>stop \<ge> 0\<close>: it raises ValueError for a zero step,
  is empty for a negative step and counts \<open>0, step, 2*step, ...\<close> below \<open>stop\<close>
  otherwise.
\<close>

definition py_range_step :: "int \<Rightarrow> int \<Rightarrow> py_error + int list" where
  "py_range_step stop step =
     (if step = 0 then Inl ValueError
      else if step < 0 then Inr []
      else Inr (map (\<lambda>k. int k * step) [0..<nat ((stop + step - 1) div step)]))"

text \<open>
  \<^verbatim>\<open>
  def to_mono(samples, n_channels):
      if n_channels == 1:
          return samples
      mono = []
      for i in range(0, len(samples), n_channels):
          chunk = samples[i : i + n_channels]
          mono.append(sum(chunk) // len(chunk))
      return mono
  \<close>
  Python's \<^verbatim>\<open>//\<close> on integers rounds towards minus infinity, as \<open>div\<close> on
  \<^typ>\<open>int\<close> does. Every chunk starts below \<open>len(samples)\<close>, so it is not empty.
\<close>

definition mono_chunk :: "int list \<Rightarrow> int \<Rightarrow> int \<Rightarrow> int" where
  "mono_chunk samples n_channels i =
     (let chunk = py_slice samples i (i + n_channels)
      in sum_list chunk div int (length chunk))"

text \<open>
  The mean as the specification words it, truncated towards zero; it is only compared
  with what \<open>to_mono\<close> computes.
\<close>

definition trunc_mean :: "int \<Rightarrow> int \<Rightarrow> int" where
  "trunc_mean t n = (if t < 0 then - ((- t) div n) else t div n)"

definition to_mono :: "int list \<Rightarrow> int \<Rightarrow> py_error + int list" where
  "to_mono samples n_channels =
     (if n_channels = 1 then Inr samples
      else case py_range_step (int (length samples)) n_channels of
             Inl e \<Rightarrow> Inl e
           | Inr idxs \<Rightarrow> Inr (map (mono_chunk samples n_channels) idxs))"

section \<open>SampleTransform: \<^verbatim>\<open>resample_linear\<close>\<close>

text \<open>
  \<^verbatim>\<open>
  def resample_linear(samples, src_rate, dst_rate):
      if src_rate == dst_rate:
          return samples
      ratio = src_rate / dst_rate
      out_len = int(len(samples) * dst_rate / src_rate)
      out = []
      for i in range(out_len):
          src_pos = i * ratio
          idx = int(src_pos)
          frac = src_pos - idx
          if idx + 1 < len(samples):
              val = samples[idx] * (1 - frac) + samples[idx + 1] * frac
          else:
              val = samples[min(idx, len(samples) - 1)]
          out.append(int(max(-32768, min(32767, val))))
      return out
  \<close>
  The rates and the length are Python integers, and \<^verbatim>\<open>/\<close> is the true division
  of two integers: it raises ZeroDivisionError for a zero divisor and OverflowError when
  the correctly rounded quotient does not fit a double, that is when the quotient is at
  least \<open>2 ^ 1024 - 2 ^ 970\<close> in absolute value (the midpoint above the largest double).
\<close>

definition py_true_div_overflows :: "int \<Rightarrow> int \<Rightarrow> bool" where
  "py_true_div_overflows a b \<longleftrightarrow> (2 ^ 1024 - 2 ^ 970) * \<bar>b\<bar> \<le> \<bar>a\<bar>"

text \<open>
  \<^verbatim>\<open>int(a / b)\<close> for integers \<open>a\<close> and \<open>b \<noteq> 0\<close> whose quotient does not
  overflow: \<^verbatim>\<open>int\<close> truncates towards zero. The integer part is taken from the
  exact quotient; it is the integer part of the double that Python computes as long as
  \<open>\<bar>a\<bar> < 2 ^ 53\<close>, and the properties below are stated inside that range.
\<close>

definition py_int_of_quotient :: "int \<Rightarrow> int \<Rightarrow> int" where
  "py_int_of_quotient a b =
     (let q = \<bar>a\<bar> div \<bar>b\<bar> in if (a < 0) \<noteq> (b < 0) then - q else q)"

text \<open>\<^verbatim>\<open>int(x)\<close> for a finite double \<open>x\<close>: truncation towards zero.\<close>

definition py_int :: "real \<Rightarrow> int" where
  "py_int x = (if x < 0 then \<lceil>x\<rceil> else \<lfloor>x\<rfloor>)"

text \<open>
  The double arithmetic of the loop body is not modelled: the parameter \<open>val\<close> gives,
  for each output index \<open>i\<close>, the value of \<^verbatim>\<open>val\<close> that the body computes there
  from the samples and the rates (a finite double, or an integer sample in the
  \<^verbatim>\<open>else\<close> branch). For samples in the signed 16-bit range and rates in the range
  above, every operand of the body is a finite double, the indices \<^verbatim>\<open>idx\<close> and
  \<^verbatim>\<open>min(idx, len(samples) - 1)\<close> are valid, and the body raises nothing. What the
  function does with \<open>val\<close> is modelled as written: the clamp with \<^verbatim>\<open>max\<close> and
  \<^verbatim>\<open>min\<close>, and \<^verbatim>\<open>int\<close>. \<^verbatim>\<open>range(out_len)\<close> is empty for a negative
  \<open>out_len\<close>.
\<close>

definition resample_linear ::
  "(nat \<Rightarrow> real) \<Rightarrow> int list \<Rightarrow> int \<Rightarrow> int \<Rightarrow> py_error + int list" where
  "resample_linear val samples src_rate dst_rate =
     (if src_rate = dst_rate then Inr samples
      else if dst_rate = 0 then Inl ZeroDivisionError
      else if py_true_div_overflows src_rate dst_rate then Inl OverflowError
      else if src_rate = 0 then Inl ZeroDivisionError
      else if py_true_div_overflows (int (length samples) * dst_rate) src_rate
      then Inl OverflowError
      else
        (let out_len = py_int_of_quotient (int (length samples) * dst_rate) src_rate
         in Inr (map (\<lambda>i. py_int (max (- 32768) (min 32767 (val i))))
                   [0..<nat out_len])))"

section \<open>FrameEncoder: \<^verbatim>\<open>samples_to_frame_channels\<close>\<close>

text \<open>
  One sample as two bytes, high byte first:
  \<^verbatim>\<open>
  if sample < 0:
      sample += 65536
  frame_data.append((sample >> 8) & 0xFF)
  frame_data.append(sample & 0xFF)
  \<close>
\<close>

definition sample_bytes :: "int \<Rightarrow> byte list" where
  "sample_bytes sample =
     (let s = (if sample < 0 then sample + 65536 else sample)
      in [word_of_int (drop_bit 8 s AND 0xFF), word_of_int (s AND 0xFF)])"

text \<open>
  The body of the \<^verbatim>\<open>while\<close> loop for one frame index: slice the chunk, pad it
  with silence when it is short, and serialise it behind the sync marker.
\<close>

definition frame_of :: "int list \<Rightarrow> int \<Rightarrow> int \<Rightarrow> byte list" where
  "frame_of samples samples_per_frame frame_idx =
     (let start = frame_idx * samples_per_frame;
          end = start + samples_per_frame;
          chunk = py_slice samples start end;
          chunk = (if int (length chunk) < samples_per_frame
                   then chunk @ replicate (nat (samples_per_frame - int (length chunk))) 0
                   else chunk)
      in SYNC_MARKER @ concat (map sample_bytes chunk))"

text \<open>
  \<^verbatim>\<open>
  while frame_idx * samples_per_frame < total_samples:
      ...
      frames.append(bytes(frame_data))
      frame_idx += 1
  return frames
  \<close>
  Nothing in the source bounds the loop, so it is a partial function: \<open>None\<close> is the
  run that never returns.
\<close>

partial_function (option) frame_loop ::
  "int list \<Rightarrow> int \<Rightarrow> int \<Rightarrow> byte list list \<Rightarrow> byte list list option" where
  "frame_loop samples samples_per_frame frame_idx frames =
     (if frame_idx * samples_per_frame < int (length samples)
      then frame_loop samples samples_per_frame (frame_idx + 1)
             (frames @ [frame_of samples samples_per_frame frame_idx])
      else Some frames)"

declare frame_loop.simps [code]

definition samples_to_frame_channels :: "int list \<Rightarrow> int \<Rightarrow> byte list list option" where
  "samples_to_frame_channels samples samples_per_frame =
     frame_loop samples samples_per_frame 0 []"

section \<open>The frame stage of \<^verbatim>\<open>main\<close>\<close>

text \<open>
  \<^verbatim>\<open>samples_per_frame = int(target_rate * step_time_ms / 1000)\<close>: the product is an
  exact integer, \<^verbatim>\<open>/\<close> is a true division and \<^verbatim>\<open>int\<close> truncates towards
  zero. The quotient is modelled exactly; the double that Python computes has the same
  integer part as long as the product stays below \<open>2 ^ 53\<close> in absolute value.
\<close>

definition samples_per_frame_of :: "int \<Rightarrow> int \<Rightarrow> int" where
  "samples_per_frame_of target_rate step_time_ms =
     (let p = target_rate * step_time_ms
      in if p < 0 then - ((- p) div 1000) else p div 1000)"

text \<open>
  The lines of \<^verbatim>\<open>main\<close> between the computation of \<^verbatim>\<open>samples_per_frame\<close> and
  the choice of the output mode:
  \<^verbatim>\<open>
  channels_per_frame = 2 + (samples_per_frame * 2 * n_channels)
  total_frames = (len(samples) + samples_per_frame - 1) // samples_per_frame
  frames = samples_to_frame_channels(samples, samples_per_frame)
  \<close>
  The floor division raises ZeroDivisionError for a zero divisor, and there is no other
  check on \<^verbatim>\<open>samples_per_frame\<close>. The result is the triple
  \<open>(frames, channels_per_frame, total_frames)\<close>; \<open>None\<close> is a run whose encoder
  loop never returns.
\<close>

definition main_frame_stage ::
  "int list \<Rightarrow> int \<Rightarrow> int \<Rightarrow> (py_error + byte list list \<times> int \<times> int) option" where
  "main_frame_stage samples samples_per_frame n_channels =
     (let channels_per_frame = 2 + samples_per_frame * 2 * n_channels
      in if samples_per_frame = 0 then Some (Inl ZeroDivisionError)
         else let total_frames =
                    (int (length samples) + samples_per_frame - 1) div samples_per_frame
              in case samples_to_frame_channels samples samples_per_frame of
                   None \<Rightarrow> None
                 | Some frames \<Rightarrow> Some (Inr (frames, channels_per_frame, total_frames)))"

section \<open>FseqHeaderCodec\<close>

subsection \<open>\<^verbatim>\<open>struct.pack\<close> and \<^verbatim>\<open>struct.unpack\<close> for unsigned little-endian fields\<close>

fun le_bytes :: "nat \<Rightarrow> int \<Rightarrow> byte list" where
  "le_bytes 0 x = []"
| "le_bytes (Suc n) x = word_of_int x # le_bytes n (x div 256)"

fun le_int :: "byte list \<Rightarrow> int" where
  "le_int [] = 0"
| "le_int (b # bs) = uint b + 256 * le_int bs"

text \<open>
  \<^verbatim>\<open>struct.pack("<B" | "<H" | "<I" | "<Q", x)\<close> for a field of \<open>n\<close> bytes:
  struct.error when \<open>x\<close> does not fit.
\<close>

definition struct_pack_uint :: "nat \<Rightarrow> int \<Rightarrow> py_error + byte list" where
  "struct_pack_uint n x =
     (if 0 \<le> x \<and> x < 2 ^ (8 * n) then Inr (le_bytes n x) else Inl StructError)"

text \<open>
  \<^verbatim>\<open>struct.unpack(fmt, f.read(n))[0]\<close>: struct.error when the read came back short.
\<close>

definition struct_unpack_uint :: "nat \<Rightarrow> byte list \<Rightarrow> py_error + int" where
  "struct_unpack_uint n bs = (if length bs = n then Inr (le_int bs) else Inl StructError)"

text \<open>A run of \<^verbatim>\<open>header.extend(struct.pack(...))\<close> statements: the first error ends it.\<close>

fun pack_fields :: "(nat \<times> int) list \<Rightarrow> py_error + byte list" where
  "pack_fields [] = Inr []"
| "pack_fields ((n, x) # fs) =
     (case struct_pack_uint n x of
        Inl e \<Rightarrow> Inl e
      | Inr bs \<Rightarrow> (case pack_fields fs of Inl e \<Rightarrow> Inl e | Inr rest \<Rightarrow> Inr (bs @ rest)))"

text \<open>A run of \<^verbatim>\<open>struct.unpack(fmt, f.read(n))[0]\<close> statements on the same open file.\<close>

fun unpack_fields :: "nat list \<Rightarrow> byte list \<Rightarrow> py_error + int list" where
  "unpack_fields [] s = Inr []"
| "unpack_fields (n # ns) s =
     (case struct_unpack_uint n (take n s) of
        Inl e \<Rightarrow> Inl e
      | Inr v \<Rightarrow> (case unpack_fields ns (drop n s) of
                    Inl e \<Rightarrow> Inl e
                  | Inr vs \<Rightarrow> Inr (v # vs)))"

subsection \<open>The fixed header\<close>

text \<open>
  The 32-byte fixed header as \<^verbatim>\<open>write_fseq_v2\<close> and \<^verbatim>\<open>merge_into_fseq\<close> both
  build it, statement for statement: magic, data offset, minor version 0, major version 2,
  variable-header offset 32, channels per frame, frame count, step time, flags,
  compression type, compression blocks, sparse ranges, reserved, unique ID.
\<close>

definition build_fixed_header :: "int \<Rightarrow> int \<Rightarrow> int \<Rightarrow> int \<Rightarrow> py_error + byte list" where
  "build_fixed_header channel_data_offset channels_per_frame frame_count step_time_ms =
     (case pack_fields
             [(2, channel_data_offset), (1, 0), (1, 2), (2, 32),
              (4, channels_per_frame), (4, frame_count), (1, step_time_ms),
              (1, 0), (1, 0), (1, 0), (1, 0), (1, 0), (8, 0)] of
        Inl e \<Rightarrow> Inl e
      | Inr bs \<Rightarrow> Inr (FSEQ_MAGIC @ bs))"

text \<open>The dictionary that \<^verbatim>\<open>read_fseq_header\<close> returns.\<close>

record fseq_info =
  data_offset :: int
  version :: "int \<times> int"
  var_header_offset :: int
  channel_count :: int
  frame_count :: int
  step_time :: int
  flags :: int
  compression :: int
  comp_blocks :: int
  sparse_ranges :: int

text \<open>
  \<^verbatim>\<open>read_fseq_header\<close> on the bytes of the file: ValueError on a wrong magic, then
  eleven fields read in order (23 bytes in all; the reserved byte and the unique ID are
  not read).
\<close>

definition read_fseq_header :: "byte list \<Rightarrow> py_error + fseq_info" where
  "read_fseq_header file =
     (if take 4 file \<noteq> FSEQ_MAGIC then Inl ValueError
      else case unpack_fields [2, 1, 1, 2, 4, 4, 1, 1, 1, 1, 1] (drop 4 file) of
             Inl e \<Rightarrow> Inl e
           | Inr vs \<Rightarrow>
               Inr \<lparr>data_offset = vs ! 0,
                    version = (vs ! 2, vs ! 1),
                    var_header_offset = vs ! 3,
                    channel_count = vs ! 4,
                    frame_count = vs ! 5,
                    step_time = vs ! 6,
                    flags = vs ! 7,
                    compression = vs ! 8,
                    comp_blocks = vs ! 9,
                    sparse_ranges = vs ! 10\<rparr>)"

subsection \<open>The variable header\<close>

definition ascii :: "string \<Rightarrow> byte list" where
  "ascii cs = map of_char cs"

text \<open>
  \<^verbatim>\<open>build_variable_header\<close>; the argument is
  \<^verbatim>\<open>os.path.basename(audio_filename).encode("utf-8")\<close>, the bytes of the base name.
  The \<^verbatim>\<open>start_channel\<close> parameter of the source is not used by its body.
\<close>

definition build_variable_header :: "byte list \<Rightarrow> py_error + byte list" where
  "build_variable_header basename =
     (let mf_value = basename @ [0];
          sp_value = ascii ''fpp-eavesdrop audio2fseq'' @ [0]
      in case struct_pack_uint 2 (int (length mf_value)) of
           Inl e \<Rightarrow> Inl e
         | Inr mf_len \<Rightarrow>
             (case struct_pack_uint 2 (int (length sp_value)) of
                Inl e \<Rightarrow> Inl e
              | Inr sp_len \<Rightarrow>
                  Inr (ascii ''mf'' @ mf_len @ mf_value @ ascii ''sp'' @ sp_len @ sp_value)))"

section \<open>FseqWriter: \<^verbatim>\<open>write_fseq_v2\<close>\<close>

text \<open>
  The write loop: every frame is checked against \<^verbatim>\<open>channels_per_frame\<close> before it
  is written, and the first mismatch raises AssertionError.
\<close>

fun write_frames :: "int \<Rightarrow> byte list list \<Rightarrow> py_error + byte list" where
  "write_frames channels_per_frame [] = Inr []"
| "write_frames channels_per_frame (frame # frames) =
     (if int (length frame) \<noteq> channels_per_frame then Inl AssertionError
      else case write_frames channels_per_frame frames of
             Inl e \<Rightarrow> Inl e
           | Inr rest \<Rightarrow> Inr (frame @ rest))"

text \<open>
  \<^verbatim>\<open>write_fseq_v2\<close> returns the bytes of the file it wrote together with the
  \<^verbatim>\<open>total_size\<close> it reports. The header is packed before the file is opened, so
  a field that does not fit raises struct.error first; a frame of the wrong size raises
  AssertionError in the write loop, and the model then returns the error alone (the
  partly written file is not part of the result).
\<close>

definition write_fseq_v2 ::
  "byte list list \<Rightarrow> int \<Rightarrow> int \<Rightarrow> byte list \<Rightarrow> py_error + byte list \<times> int" where
  "write_fseq_v2 frames channels_per_frame step_time_ms variable_header =
     (let frame_count = int (length frames);
          fixed_header_size = 32;
          var_header_size = int (length variable_header);
          channel_data_offset = fixed_header_size + var_header_size;
          padding = (4 - (channel_data_offset mod 4)) mod 4;
          channel_data_offset = channel_data_offset + padding
      in case build_fixed_header channel_data_offset channels_per_frame frame_count
                step_time_ms of
           Inl e \<Rightarrow> Inl e
         | Inr header \<Rightarrow>
             (if length header \<noteq> 32 then Inl AssertionError
              else (case write_frames channels_per_frame frames of
                      Inl e \<Rightarrow> Inl e
                    | Inr body \<Rightarrow>
                        Inr (header @ variable_header @ replicate (nat padding) 0 @ body,
                             channel_data_offset + frame_count * channels_per_frame))))"

section \<open>FseqMerger: \<^verbatim>\<open>merge_into_fseq\<close>\<close>

text \<open>
  One pass of the merge loop, for frame index \<open>frame_i\<close>:
  \<^verbatim>\<open>
  frame = bytearray(total_channels)
  if frame_i < light_frame_count:
      light_start = frame_i * light_channel_count
      light_end = light_start + light_channel_count
      if light_end <= len(light_data):
          frame[0:light_channel_count] = light_data[light_start:light_end]
  if frame_i < audio_frame_count:
      audio_data = audio_frames[frame_i]
      frame[start_channel : start_channel + audio_channels_per_frame] = audio_data
  \<close>
\<close>

definition merge_frame ::
  "byte list \<Rightarrow> int \<Rightarrow> int \<Rightarrow> byte list list \<Rightarrow> int \<Rightarrow> int \<Rightarrow> int \<Rightarrow> int \<Rightarrow> byte list" where
  "merge_frame light_data light_channel_count light_frame_count audio_frames
       audio_channels_per_frame start_channel total_channels frame_i =
     (let frame = replicate (nat total_channels) 0;
          frame =
            (if frame_i < light_frame_count
             then let light_start = frame_i * light_channel_count;
                      light_end = light_start + light_channel_count
                  in if light_end \<le> int (length light_data)
                     then py_slice_assign frame 0 light_channel_count
                            (py_slice light_data light_start light_end)
                     else frame
             else frame);
          frame =
            (if frame_i < int (length audio_frames)
             then py_slice_assign frame start_channel (start_channel + audio_channels_per_frame)
                    (audio_frames ! nat frame_i)
             else frame)
      in frame)"

text \<open>
  \<^verbatim>\<open>merge_into_fseq\<close> on the bytes of the file at \<^verbatim>\<open>merge_path\<close>. The two
  \<^verbatim>\<open>sys.exit(1)\<close> rejections are SystemExit. The light data is everything from
  \<^verbatim>\<open>data_offset\<close> to the end of the file, whatever its length. The result is the
  bytes of the output file with the returned
  \<open>(total_size, total_channels, total_frames)\<close>.
\<close>

definition merge_into_fseq ::
  "byte list list \<Rightarrow> int \<Rightarrow> byte list \<Rightarrow> int \<Rightarrow> py_error + byte list \<times> int \<times> int \<times> int" where
  "merge_into_fseq audio_frames audio_channels_per_frame merge_file start_channel =
     (case read_fseq_header merge_file of
        Inl e \<Rightarrow> Inl e
      | Inr info \<Rightarrow>
          (if compression info \<noteq> 0 then Inl SystemExit
           else if fst (version info) \<noteq> 2 then Inl SystemExit
           else
             (let light_channel_count = channel_count info;
                  light_frame_count = frame_count info;
                  audio_frame_count = int (length audio_frames);
                  total_frames = max light_frame_count audio_frame_count;
                  total_channels =
                    max light_channel_count (start_channel + audio_channels_per_frame);
                  light_data = drop (nat (data_offset info)) merge_file
              in (case build_variable_header (ascii ''merged'') of
                    Inl e \<Rightarrow> Inl e
                  | Inr var_header \<Rightarrow>
                      (let fixed_header_size = 32;
                           var_header_size = int (length var_header);
                           channel_data_offset = fixed_header_size + var_header_size;
                           padding = (4 - (channel_data_offset mod 4)) mod 4;
                           channel_data_offset = channel_data_offset + padding
                       in (case build_fixed_header channel_data_offset total_channels
                                  total_frames (step_time info) of
                             Inl e \<Rightarrow> Inl e
                           | Inr header \<Rightarrow>
                               (let rows =
                                      map (\<lambda>frame_i.
                                             merge_frame light_data light_channel_count
                                               light_frame_count audio_frames
                                               audio_channels_per_frame start_channel
                                               total_channels (int frame_i))
                                        [0..<nat total_frames]
                                in Inr (header @ var_header @ replicate (nat padding) 0 @
                                          concat rows,
                                        channel_data_offset + total_frames * total_channels,
                                        total_channels, total_frames))))))))"

text \<open>
  The merged grid as the specification words it, byte by byte: in output row \<open>f\<close>,
  channel \<open>c\<close> carries the audio byte when the audio frame \<open>f\<close> exists and \<open>c\<close>
  lies in its span, else the light byte when the light row \<open>f\<close> exists and \<open>c\<close> is
  a light channel, else zero. It is only compared with what \<open>merge_frame\<close> computes.
\<close>

definition merged_byte ::
  "byte list \<Rightarrow> int \<Rightarrow> int \<Rightarrow> byte list list \<Rightarrow> int \<Rightarrow> int \<Rightarrow> nat \<Rightarrow> nat \<Rightarrow> byte" where
  "merged_byte light_data light_channel_count light_frame_count audio_frames
       audio_channels_per_frame start_channel f c =
     (if f < length audio_frames \<and> start_channel \<le> int c \<and>
         int c < start_channel + audio_channels_per_frame
      then audio_frames ! f ! nat (int c - start_channel)
      else if int f < light_frame_count \<and> int c < light_channel_count
      then light_data ! (f * nat light_channel_count + c)
      else 0)"

text \<open>
  Two merge targets used as concrete inputs below: a light sequence of 4 channels and 10
  frames (data offset 32, step time 25 ms, every data byte \<open>0x11\<close>), and a file whose
  header declares 2 channels and 2 frames but which holds only 3 data bytes.
\<close>

definition light_4x10 :: "byte list" where
  "light_4x10 =
     [0x50, 0x53, 0x45, 0x51, 32, 0, 0, 2, 32, 0, 4, 0, 0, 0, 10, 0, 0, 0,
      25, 0, 0, 0, 0, 0, 0, 0, 0, 0, 0, 0, 0, 0] @ replicate 40 0x11"

definition light_truncated :: "byte list" where
  "light_truncated =
     [0x50, 0x53, 0x45, 0x51, 32, 0, 0, 2, 32, 0, 2, 0, 0, 0, 2, 0, 0, 0,
      25, 0, 0, 0, 0, 0, 0, 0, 0, 0, 0, 0, 0, 0] @ [1, 2, 3]"

section \<open>Properties of the frame encoder\<close>

lemma loop_guard_iff:
  assumes "1 \<le> spf"
  shows "int k * spf < int L \<longleftrightarrow> k < nat ((int L + spf - 1) div spf)"
proof -
  have pos: "0 < spf" using assms by simp
  have shift: "(int L + spf - 1 - int k * spf) div spf = (int L + spf - 1) div spf - int k"
    using pos div_mult_self1 [of spf "int L + spf - 1" "- int k"] by (simp add: algebra_simps)
  have "k < nat ((int L + spf - 1) div spf) \<longleftrightarrow> 0 < (int L + spf - 1) div spf - int k"
    by linarith
  also have "\<dots> \<longleftrightarrow> spf \<le> int L + spf - 1 - int k * spf"
    using pos_imp_zdiv_pos_iff [OF pos, of "int L + spf - 1 - int k * spf"] shift by simp
  also have "\<dots> \<longleftrightarrow> int k * spf < int L"
    by linarith
  finally show ?thesis by simp
qed

lemma frame_loop_closed:
  assumes "1 \<le> spf"
  shows "frame_loop samples spf (int k) frames =
           Some (frames @ map (\<lambda>j. frame_of samples spf (int j))
                   [k..<max k (nat ((int (length samples) + spf - 1) div spf))])"
proof (induction "nat ((int (length samples) + spf - 1) div spf) - k" arbitrary: k frames)
  case 0
  then have "\<not> k < nat ((int (length samples) + spf - 1) div spf)" by simp
  then have "\<not> int k * spf < int (length samples)"
    using loop_guard_iff [OF assms] by simp
  then show ?case using 0 by (subst frame_loop.simps) (simp add: max_def)
next
  case (Suc d)
  then have lt: "k < nat ((int (length samples) + spf - 1) div spf)" by simp
  then have g: "int k * spf < int (length samples)"
    using loop_guard_iff [OF assms] by simp
  have d: "d = nat ((int (length samples) + spf - 1) div spf) - Suc k" using Suc by simp
  have step: "frame_loop samples spf (int k) frames =
        frame_loop samples spf (int (Suc k)) (frames @ [frame_of samples spf (int k)])"
    using g by (subst frame_loop.simps) (simp add: add.commute)
  have "frame_loop samples spf (int (Suc k)) (frames @ [frame_of samples spf (int k)]) =
          Some ((frames @ [frame_of samples spf (int k)]) @
                map (\<lambda>j. frame_of samples spf (int j))
                  [Suc k..<max (Suc k) (nat ((int (length samples) + spf - 1) div spf))])"
    by (rule Suc.hyps(1) [OF d])
  also have "\<dots> = Some (frames @ map (\<lambda>j. frame_of samples spf (int j))
                   [k..<max k (nat ((int (length samples) + spf - 1) div spf))])"
    using lt by (simp add: max_def upt_conv_Cons)
  finally show ?case by (simp only: step)
qed

lemma frame_loop_diverges:
  assumes "frame_loop samples spf idx frames = Some y"
  shows "\<not> (spf \<le> 0 \<and> samples \<noteq> [] \<and> 0 \<le> idx)"
proof (rule frame_loop.raw_induct
         [where P = "\<lambda>s p i f y. \<not> (p \<le> 0 \<and> s \<noteq> [] \<and> 0 \<le> i)", OF _ assms])
  fix fl :: "int list \<Rightarrow> int \<Rightarrow> int \<Rightarrow> byte list list \<Rightarrow> byte list list option"
  fix s p i f y
  assume IH: "\<And>s p i f y. fl s p i f = Some y \<Longrightarrow> \<not> (p \<le> 0 \<and> s \<noteq> [] \<and> 0 \<le> i)"
    and eq: "(if i * p < int (length s) then fl s p (i + 1) (f @ [frame_of s p i])
              else Some f) = Some y"
  show "\<not> (p \<le> 0 \<and> s \<noteq> [] \<and> 0 \<le> i)"
  proof
    assume a: "p \<le> 0 \<and> s \<noteq> [] \<and> 0 \<le> i"
    then have "i * p \<le> 0" by (simp add: mult_nonneg_nonpos)
    moreover have "0 < int (length s)" using a by simp
    ultimately have "i * p < int (length s)" by linarith
    with eq have "fl s p (i + 1) (f @ [frame_of s p i]) = Some y" by simp
    from IH [OF this] a show False by simp
  qed
qed

lemma length_sample_bytes: "length (sample_bytes s) = 2"
  by (simp add: sample_bytes_def Let_def)

lemma length_concat_sample_bytes: "length (concat (map sample_bytes xs)) = 2 * length xs"
  by (induction xs) (simp_all add: length_sample_bytes)

lemma length_py_slice_le:
  "a \<le> b \<Longrightarrow> int (length (py_slice xs a b)) \<le> b - a"
  unfolding py_slice_def slice_index_def Let_def
  by (simp split: if_splits) linarith

lemma length_frame_of:
  assumes "0 \<le> spf"
  shows "length (frame_of samples spf idx) = 2 + 2 * nat spf"
proof -
  have "int (length (py_slice samples (idx * spf) (idx * spf + spf))) \<le> spf"
    using length_py_slice_le [of "idx * spf" "idx * spf + spf" samples] assms by simp
  then show ?thesis
    unfolding frame_of_def Let_def
    using assms by (auto simp add: length_concat_sample_bytes SYNC_MARKER_def)
qed

lemma frame_count_ceiling:
  assumes "1 \<le> spf"
  shows "int (nat ((int L + spf - 1) div spf)) = \<lceil>real L / real_of_int spf\<rceil>"
proof -
  have pos: "0 < spf" using assms by simp
  have a: "(int L + spf - 1) div spf = - ((- int L) div spf)"
  proof (cases "int L mod spf = 0")
    case True
    then have "int L = spf * (int L div spf)" by auto
    then obtain q where q: "int L = spf * q" ..
    have "(spf * q + (spf - 1)) div spf = q"
      using pos by (simp add: div_pos_pos_trivial)
    moreover have "(- (spf * q)) div spf = - q"
      using pos nonzero_mult_div_cancel_left [of spf "- q"] by simp
    ultimately show ?thesis using q by (simp add: algebra_simps)
  next
    case False
    have nz: "spf \<noteq> 0" using pos by simp
    have m: "1 \<le> int L mod spf"
      using False pos_mod_sign [OF pos, of "int L"] by linarith
    have m2: "int L mod spf < spf" using pos by simp
    have e: "int L + spf - 1 = (int L mod spf - 1) + (int L div spf + 1) * spf"
      by (simp add: algebra_simps)
    have "(int L + spf - 1) div spf = ((int L mod spf - 1) + (int L div spf + 1) * spf) div spf"
      by (rule arg_cong [where f = "\<lambda>x. x div spf", OF e])
    also have "\<dots> = (int L div spf + 1) + (int L mod spf - 1) div spf"
      using nz by (rule div_mult_self1)
    also have "(int L mod spf - 1) div spf = 0"
      using m m2 by (simp add: div_pos_pos_trivial)
    finally show ?thesis using False by (simp add: zdiv_zminus1_eq_if [OF nz])
  qed
  have nn: "0 \<le> (int L + spf - 1) div spf"
    using pos by (simp add: pos_imp_zdiv_nonneg_iff)
  have "\<lceil>real L / real_of_int spf\<rceil> = \<lceil>real_of_int (int L) / real_of_int spf\<rceil>" by simp
  also have "\<dots> = - ((- int L) div spf)" by (rule ceiling_divide_eq_div)
  finally show ?thesis using a nn by simp
qed

lemma samples_to_frame_channels_closed:
  assumes "1 \<le> spf"
  shows "samples_to_frame_channels samples spf =
           Some (map (\<lambda>j. frame_of samples spf (int j))
                   [0..<nat ((int (length samples) + spf - 1) div spf)])"
  using frame_loop_closed [OF assms, of samples 0 "[]"]
  by (simp add: samples_to_frame_channels_def)

lemma samples_to_frame_channels_diverges:
  assumes "spf \<le> 0" "samples \<noteq> []"
  shows "samples_to_frame_channels samples spf = None"
proof (cases "samples_to_frame_channels samples spf")
  case None then show ?thesis .
next
  case (Some y)
  then have "frame_loop samples spf 0 [] = Some y"
    by (simp add: samples_to_frame_channels_def)
  from frame_loop_diverges [OF this] assms show ?thesis by simp
qed

lemma samples_to_frame_channels_empty:
  "samples_to_frame_channels [] spf = Some []"
  unfolding samples_to_frame_channels_def
  by (subst frame_loop.simps) simp

text \<open>
  Claim C9. For every sample list and every \<open>samples_per_frame \<ge> 1\<close> the frame encoder
  returns, and it returns exactly \<open>ceil(len(samples) / samples_per_frame)\<close> frames; an
  empty sample list gives no frame at all. Positivity is needed: for
  \<open>samples_per_frame \<le> 0\<close> and a sample list that is not empty the loop never returns.
\<close>

theorem frame_encoder_count:
  "(1 \<le> spf \<longrightarrow>
      (\<exists>frames. samples_to_frame_channels samples spf = Some frames \<and>
         int (length frames) = \<lceil>real (length samples) / real_of_int spf\<rceil> \<and>
         (samples = [] \<longrightarrow> frames = []))) \<and>
   (spf \<le> 0 \<and> samples \<noteq> [] \<longrightarrow> samples_to_frame_channels samples spf = None)"
proof (intro conjI impI)
  assume p: "1 \<le> spf"
  let ?n = "nat ((int (length samples) + spf - 1) div spf)"
  let ?fs = "map (\<lambda>j. frame_of samples spf (int j)) [0..<?n]"
  have 1: "samples_to_frame_channels samples spf = Some ?fs"
    by (rule samples_to_frame_channels_closed [OF p])
  have 2: "int (length ?fs) = \<lceil>real (length samples) / real_of_int spf\<rceil>"
    using frame_count_ceiling [OF p, of "length samples"] by simp
  have 3: "samples = [] \<longrightarrow> ?fs = []"
    using p by (simp add: div_pos_pos_trivial)
  from 1 2 3 show "\<exists>frames. samples_to_frame_channels samples spf = Some frames \<and>
         int (length frames) = \<lceil>real (length samples) / real_of_int spf\<rceil> \<and>
         (samples = [] \<longrightarrow> frames = [])" by blast
next
  assume "spf \<le> 0 \<and> samples \<noteq> []"
  then show "samples_to_frame_channels samples spf = None"
    by (simp add: samples_to_frame_channels_diverges)
qed

theorem frame_encoder_count_witness:
  "(1::int) \<le> 2 \<and>
   (\<exists>frames. samples_to_frame_channels [1, - 2, 3] 2 = Some frames \<and> int (length frames) = 2) \<and>
   (0::int) \<le> 0 \<and> [5::int] \<noteq> [] \<and> samples_to_frame_channels [5] 0 = None"
  using frame_encoder_count [of 2 "[1, - 2, 3]"] frame_encoder_count [of 0 "[5]"]
  by simp

lemma sample_bytes_zero: "sample_bytes 0 = [0, 0]"
  by (simp add: sample_bytes_def)

lemma concat_sample_bytes_zero:
  "concat (map sample_bytes (replicate m 0)) = replicate (2 * m) 0"
  by (induction m) (simp_all add: sample_bytes_zero)

lemma py_slice_replicate:
  "py_slice (replicate n x) a b = replicate (length (py_slice (replicate n x) a b)) x"
  by (simp add: py_slice_def Let_def)

lemma frame_of_silence:
  assumes "0 \<le> spf"
  shows "frame_of (replicate n 0) spf idx = SYNC_MARKER @ replicate (2 * nat spf) 0"
proof -
  let ?c = "py_slice (replicate n (0::int)) (idx * spf) (idx * spf + spf)"
  let ?k = "length ?c"
  have c: "?c = replicate ?k 0" by (rule py_slice_replicate)
  have le: "int ?k \<le> spf"
    using length_py_slice_le [of "idx * spf" "idx * spf + spf" "replicate n (0::int)"] assms
    by simp
  have pad: "(if int ?k < spf then ?c @ replicate (nat (spf - int ?k)) 0 else ?c)
               = replicate (nat spf) 0"
  proof (cases "int ?k < spf")
    case True
    have "?c @ replicate (nat (spf - int ?k)) 0
            = replicate ?k 0 @ replicate (nat (spf - int ?k)) 0"
      using c by simp
    also have "\<dots> = replicate (?k + nat (spf - int ?k)) 0"
      by (simp only: replicate_add)
    also have "?k + nat (spf - int ?k) = nat spf" using True by linarith
    finally show ?thesis using True by simp
  next
    case False
    with le have "?k = nat spf" by linarith
    with c False show ?thesis by simp
  qed
  show ?thesis
    unfolding frame_of_def Let_def
    by (simp only: pad concat_sample_bytes_zero)
qed

lemma silence_frames:
  assumes "1 \<le> spf"
  shows "samples_to_frame_channels (replicate n 0) spf =
           Some (replicate (nat ((int n + spf - 1) div spf))
                   (SYNC_MARKER @ replicate (2 * nat spf) 0))"
proof -
  have "0 \<le> spf" using assms by simp
  then show ?thesis
    by (simp add: samples_to_frame_channels_closed [OF assms] frame_of_silence
          map_replicate_const)
qed

text \<open>
  Claim C3, as amended. One second of silence at 44100 Hz mono, encoded with a step time
  of 25 ms: \<open>samples_per_frame\<close> is 1102, and because \<open>40 * 1102 = 44080 < 44100\<close>
  the encoder produces 41 frames, not 40. Each frame is 2206 bytes long, starts with
  \<open>0xAA, 0x55\<close> and carries only zero PCM bytes; \<open>main\<close> computes
  \<open>channels_per_frame = 2206\<close> and \<open>total_frames = 41\<close>.
\<close>

theorem silence_end_to_end:
  "samples_per_frame_of 44100 25 = 1102 \<and>
   main_frame_stage (replicate 44100 0) 1102 1 =
     Some (Inr (replicate 41 ([0xAA, 0x55] @ replicate 2204 0), 2206, 41))"
proof -
  have "samples_to_frame_channels (replicate 44100 0) 1102 =
          Some (replicate 41 (SYNC_MARKER @ replicate 2204 0))"
    using silence_frames [of 1102 44100] by simp
  then show ?thesis
    by (simp add: main_frame_stage_def samples_per_frame_of_def SYNC_MARKER_def)
qed

text \<open>
  Claim C3 as stated fails: the number of frames for that input is not 40.
\<close>

theorem silence_forty_frames_counterexample:
  "map_option length (samples_to_frame_channels (replicate 44100 0) 1102) \<noteq> Some 40"
  using silence_frames [of 1102 44100] by simp

text \<open>
  The width of a frame does not depend on the channel count: the encoder is not given it.
\<close>

lemma frame_width:
  assumes "1 \<le> spf" "samples_to_frame_channels samples spf = Some frames" "f \<in> set frames"
  shows "length f = 2 + 2 * nat spf"
proof -
  have "0 \<le> spf" using assms(1) by simp
  then show ?thesis
    using assms(2,3) by (auto simp add: samples_to_frame_channels_closed [OF assms(1)] length_frame_of)
qed

text \<open>
  Claim C1. Every frame should be \<open>2 + samples_per_frame * 2 * n_channels\<close> bytes
  long, the width \<open>main\<close> declares to the writer. For two stereo sample pairs with
  one sample per frame, \<open>main\<close> declares 6 channels per frame while the encoder
  produces frames of 4 bytes, and \<open>write_fseq_v2\<close> stops at its frame size assertion.
\<close>

theorem stereo_frame_size_mismatch:
  "main_frame_stage [0, 0, 0, 0] 1 2 = Some (Inr (replicate 4 [0xAA, 0x55, 0, 0], 6, 4)) \<and>
   write_fseq_v2 (replicate 4 [0xAA, 0x55, 0, 0]) 6 25 [] = Inl AssertionError"
proof -
  have "samples_to_frame_channels (replicate 4 0) 1 = Some (replicate 4 (SYNC_MARKER @ replicate 2 0))"
    using silence_frames [of 1 4] by simp
  then have 1: "main_frame_stage [0, 0, 0, 0] 1 2 = Some (Inr (replicate 4 [0xAA, 0x55, 0, 0], 6, 4))"
    by (simp add: main_frame_stage_def SYNC_MARKER_def numeral_eq_Suc)
  have 2: "write_fseq_v2 (replicate 4 [0xAA, 0x55, 0, 0]) 6 25 [] = Inl AssertionError"
    by (simp add: write_fseq_v2_def build_fixed_header_def struct_pack_uint_def FSEQ_MAGIC_def
          numeral_eq_Suc)
  from 1 2 show ?thesis by simp
qed

text \<open>
  Claim C2 as stated fails: a negative \<open>samples_per_frame\<close> is not rejected. With no
  samples the frame stage completes without an error.
\<close>

theorem negative_frame_rate_counterexample:
  "main_frame_stage [] (- 1) 1 = Some (Inr ([], 0, 2))"
  by (simp add: main_frame_stage_def samples_to_frame_channels_empty)

text \<open>
  Claim C2, as amended. When \<open>samples_per_frame\<close> is zero the run fails before any
  frame is produced: the division that computes \<open>total_frames\<close> raises
  ZeroDivisionError. A negative \<open>samples_per_frame\<close> is not rejected: on an empty
  sample list the frame stage returns no frames and no error.
\<close>

theorem zero_frame_rate:
  "main_frame_stage samples 0 n_channels = Some (Inl ZeroDivisionError) \<and>
   (spf < 0 \<longrightarrow>
      main_frame_stage [] spf n_channels =
        Some (Inr ([], 2 + spf * 2 * n_channels, (spf - 1) div spf)))"
  by (simp add: main_frame_stage_def samples_to_frame_channels_empty)

theorem zero_frame_rate_witness:
  "main_frame_stage [1, 2, 3] 0 1 = Some (Inl ZeroDivisionError) \<and>
   (- 1102 :: int) < 0 \<and>
   main_frame_stage [] (- 1102) 1 = Some (Inr ([], - 2202, 1))"
  using zero_frame_rate [of "[1, 2, 3]" 1 "- 1102"] by simp

section \<open>Properties of \<^verbatim>\<open>to_mono\<close>\<close>

lemma range_step_exact:
  assumes "1 \<le> n"
  shows "py_range_step (int (k * nat n)) n = Inr (map (\<lambda>j. int j * n) [0..<k])"
proof -
  have nz: "n \<noteq> 0" using assms by simp
  have e: "int (k * nat n) + n - 1 = (n - 1) + int k * n" using assms by simp
  have "(int (k * nat n) + n - 1) div n = ((n - 1) + int k * n) div n"
    by (rule arg_cong [where f = "\<lambda>x. x div n", OF e])
  also have "\<dots> = int k + (n - 1) div n" using nz by (rule div_mult_self1)
  also have "(n - 1) div n = 0" using assms by (simp add: div_pos_pos_trivial)
  finally have "nat ((int (k * nat n) + n - 1) div n) = k" by simp
  then show ?thesis using assms by (simp add: py_range_step_def)
qed

lemma py_slice_inside:
  assumes "0 \<le> a" "0 \<le> n" "nat a + nat n \<le> length xs"
  shows "py_slice xs a (a + n) = take (nat n) (drop (nat a) xs)"
  using assms by (simp add: py_slice_def slice_index_def Let_def nat_add_distrib min_def)

lemma mono_chunk_group:
  assumes "1 \<le> n" "j < k" "length samples = k * nat n"
  shows "mono_chunk samples n (int j * n) =
           sum_list (take (nat n) (drop (j * nat n) samples)) div n"
proof -
  have "Suc j * nat n \<le> k * nat n" using assms(2) by (simp add: mult_le_mono1 del: mult_Suc)
  then have fit: "j * nat n + nat n \<le> length samples" using assms(3) by simp
  have a: "nat (int j * n) = j * nat n" using assms(1) by (simp add: nat_mult_distrib)
  have "py_slice samples (int j * n) (int j * n + n) = take (nat n) (drop (j * nat n) samples)"
    using py_slice_inside [of "int j * n" n samples] assms(1) fit a by simp
  moreover have "length (take (nat n) (drop (j * nat n) samples)) = nat n"
    using fit by simp
  ultimately show ?thesis using assms(1) by (simp add: mono_chunk_def Let_def)
qed

text \<open>
  Claim C4, as amended. For an interleaved sample list whose length is a multiple of
  \<open>n_channels \<ge> 2\<close>, \<open>to_mono\<close> replaces each group of \<open>n_channels\<close>
  consecutive samples by the integer mean of the group rounded towards minus infinity
  (Python's \<^verbatim>\<open>//\<close>); for one channel it is the identity, and \<open>[3, 4]\<close> maps
  to \<open>3\<close>.
\<close>

theorem to_mono_floor_mean:
  "(2 \<le> n \<and> length samples = k * nat n \<longrightarrow>
      to_mono samples n =
        Inr (map (\<lambda>j. sum_list (take (nat n) (drop (j * nat n) samples)) div n) [0..<k])) \<and>
   to_mono samples 1 = Inr samples \<and>
   to_mono [3, 4] 2 = Inr [3]"
proof (intro conjI impI)
  assume h: "2 \<le> n \<and> length samples = k * nat n"
  then have n1: "1 \<le> n" and ne: "n \<noteq> 1" and len: "length samples = k * nat n" by simp_all
  have "to_mono samples n = Inr (map (mono_chunk samples n) (map (\<lambda>j. int j * n) [0..<k]))"
    using range_step_exact [OF n1, of k] ne len by (simp add: to_mono_def)
  also have "map (mono_chunk samples n) (map (\<lambda>j. int j * n) [0..<k]) =
        map (\<lambda>j. sum_list (take (nat n) (drop (j * nat n) samples)) div n) [0..<k]"
    using mono_chunk_group [OF n1 _ len] by simp
  finally show "to_mono samples n =
        Inr (map (\<lambda>j. sum_list (take (nat n) (drop (j * nat n) samples)) div n) [0..<k])" .
next
  show "to_mono samples 1 = Inr samples" by (simp add: to_mono_def)
next
  show "to_mono [3, 4] 2 = Inr [3]"
    by (simp add: to_mono_def py_range_step_def mono_chunk_def py_slice_def slice_index_def)
qed

theorem to_mono_floor_mean_witness:
  "(2::int) \<le> 2 \<and> length [- 3, - 4, 7, 2 :: int] = 2 * nat 2 \<and>
   to_mono [- 3, - 4, 7, 2] 2 = Inr [- 4, 4]"
  using to_mono_floor_mean [of 2 "[- 3, - 4, 7, 2]" 2]
  by (simp add: numeral_eq_Suc)

text \<open>
  Claim C4 as stated fails: for the group \<open>[-3, -4]\<close> the mean truncated towards zero
  is \<open>-3\<close>, and \<open>to_mono\<close> returns \<open>-4\<close>.
\<close>

theorem to_mono_truncation_counterexample:
  "to_mono [- 3, - 4] 2 \<noteq> Inr [trunc_mean (- 3 + - 4) 2]"
  by (simp add: to_mono_def py_range_step_def mono_chunk_def py_slice_def slice_index_def trunc_mean_def)

section \<open>Properties of \<^verbatim>\<open>resample_linear\<close>\<close>

lemma no_overflow_below_2_53:
  assumes "0 \<le> a" "a < 2 ^ 53" "0 < b"
  shows "\<not> py_true_div_overflows a b"
proof -
  have "a < 2 ^ 53" by (rule assms(2))
  also have "(2::int) ^ 53 \<le> 2 ^ 1024 - 2 ^ 970" by simp
  also have "(2 ^ 1024 - 2 ^ 970 :: int) = (2 ^ 1024 - 2 ^ 970) * 1" by simp
  also have "(2 ^ 1024 - 2 ^ 970) * 1 \<le> (2 ^ 1024 - 2 ^ 970) * b"
    using assms(3) by (intro mult_left_mono) simp_all
  finally have "a < (2 ^ 1024 - 2 ^ 970) * b" .
  then show ?thesis using assms by (simp add: py_true_div_overflows_def)
qed

lemma py_int_clamp_range:
  "- 32768 \<le> py_int (max (- 32768) (min 32767 x)) \<and>
   py_int (max (- 32768) (min 32767 x)) \<le> 32767"
proof -
  let ?c = "max (- 32768) (min 32767 x)"
  have lo: "- 32768 \<le> ?c" and hi: "?c \<le> 32767" by simp_all
  show ?thesis
  proof (cases "?c < 0")
    case True
    have "\<lceil>- 32768 :: real\<rceil> \<le> \<lceil>?c\<rceil>" using lo by (rule ceiling_mono)
    moreover have "\<lceil>?c\<rceil> \<le> 0" using True by (simp add: ceiling_le_iff)
    ultimately show ?thesis using True by (simp add: py_int_def)
  next
    case False
    have "\<lfloor>?c\<rfloor> \<le> \<lfloor>32767 :: real\<rfloor>" using hi by (rule floor_mono)
    moreover have "0 \<le> \<lfloor>?c\<rfloor>" using False by simp
    ultimately show ?thesis using False by (simp add: py_int_def)
  qed
qed

text \<open>
  Claim C8, as amended. With equal rates \<open>resample_linear\<close> returns its input
  unchanged, for any samples and any rate. For positive rates with the source rate and
  the product of input length and destination rate below \<open>2 ^ 53\<close>, and samples in
  the signed 16-bit range, it returns a list of length
  \<open>floor(len(samples) * dst_rate / src_rate)\<close> whose every element lies in
  \<open>[-32768, 32767]\<close>, whatever values the interpolation computes.
\<close>

theorem resample_linear_contract:
  "resample_linear val samples rate rate = Inr samples \<and>
   (0 < src_rate \<and> 0 < dst_rate \<and> src_rate < 2 ^ 53 \<and>
    int (length samples) * dst_rate < 2 ^ 53 \<and>
    (\<forall>s \<in> set samples. - 32768 \<le> s \<and> s \<le> 32767) \<longrightarrow>
    (\<exists>out. resample_linear val samples src_rate dst_rate = Inr out \<and>
       int (length out) =
         \<lfloor>real_of_int (int (length samples) * dst_rate) / real_of_int src_rate\<rfloor> \<and>
       (\<forall>x \<in> set out. - 32768 \<le> x \<and> x \<le> 32767) \<and>
       (src_rate = dst_rate \<longrightarrow> out = samples)))"
proof (intro conjI impI)
  show "resample_linear val samples rate rate = Inr samples"
    by (simp add: resample_linear_def)
next
  assume h: "0 < src_rate \<and> 0 < dst_rate \<and> src_rate < 2 ^ 53 \<and>
    int (length samples) * dst_rate < 2 ^ 53 \<and>
    (\<forall>s \<in> set samples. - 32768 \<le> s \<and> s \<le> 32767)"
  let ?n = "int (length samples) * dst_rate"
  have fl: "\<lfloor>real_of_int ?n / real_of_int src_rate\<rfloor> = ?n div src_rate"
    by (rule floor_divide_of_int_eq)
  show "\<exists>out. resample_linear val samples src_rate dst_rate = Inr out \<and>
       int (length out) = \<lfloor>real_of_int ?n / real_of_int src_rate\<rfloor> \<and>
       (\<forall>x \<in> set out. - 32768 \<le> x \<and> x \<le> 32767) \<and>
       (src_rate = dst_rate \<longrightarrow> out = samples)"
  proof (cases "src_rate = dst_rate")
    case True
    have "?n div src_rate = int (length samples)" using True h by simp
    then show ?thesis using True h by (simp add: resample_linear_def fl)
  next
    case False
    have n0: "0 \<le> ?n" using h by simp
    have o1: "\<not> py_true_div_overflows src_rate dst_rate"
      using h by (intro no_overflow_below_2_53) simp_all
    have o2: "\<not> py_true_div_overflows ?n src_rate"
      using h n0 by (intro no_overflow_below_2_53) simp_all
    have q: "py_int_of_quotient ?n src_rate = ?n div src_rate"
      using h n0 by (simp add: py_int_of_quotient_def Let_def)
    have q0: "0 \<le> ?n div src_rate" using h n0 by (simp add: pos_imp_zdiv_nonneg_iff)
    let ?out = "map (\<lambda>i. py_int (max (- 32768) (min 32767 (val i))))
                  [0..<nat (?n div src_rate)]"
    have r: "resample_linear val samples src_rate dst_rate = Inr ?out"
      using False h o1 o2 by (simp add: resample_linear_def q Let_def)
    have "int (length ?out) = ?n div src_rate" using q0 by simp
    then have l: "int (length ?out) = \<lfloor>real_of_int ?n / real_of_int src_rate\<rfloor>"
      by (simp only: fl)
    have b: "\<forall>x \<in> set ?out. - 32768 \<le> x \<and> x \<le> 32767"
      using py_int_clamp_range by auto
    from r l b False show ?thesis by blast
  qed
qed

theorem resample_linear_contract_witness:
  "resample_linear real [7, 8] 44100 44100 = Inr [7, 8] \<and>
   (\<exists>out. resample_linear ((*) 40000 \<circ> real) [100, - 200, 300, 400] 44100 22050 = Inr out \<and>
      int (length out) = 2 \<and> list_all (\<lambda>x. - 32768 \<le> x \<and> x \<le> 32767) out)"
proof -
  have 1: "resample_linear real [7, 8] 44100 44100 = Inr [7, 8]"
    using resample_linear_contract [of real "[7, 8]" 44100] by simp
  have h: "(0::int) < 44100 \<and> (0::int) < 22050 \<and> (44100::int) < 2 ^ 53 \<and>
    int (length [100, - 200, 300, 400 :: int]) * 22050 < 2 ^ 53 \<and>
    (\<forall>s \<in> set [100, - 200, 300, 400 :: int]. - 32768 \<le> s \<and> s \<le> 32767)" by simp
  have f: "\<lfloor>real_of_int (int (length [100, - 200, 300, 400 :: int]) * 22050) / real_of_int 44100\<rfloor> = 2"
    by simp
  from resample_linear_contract
         [of "(*) 40000 \<circ> real" "[100, - 200, 300, 400]" 44100 44100 22050] h
  obtain out where
    "resample_linear ((*) 40000 \<circ> real) [100, - 200, 300, 400] 44100 22050 = Inr out"
    "int (length out) =
       \<lfloor>real_of_int (int (length [100, - 200, 300, 400 :: int]) * 22050) / real_of_int 44100\<rfloor>"
    "\<forall>x \<in> set out. - 32768 \<le> x \<and> x \<le> 32767"
    by blast
  then have "\<exists>out. resample_linear ((*) 40000 \<circ> real) [100, - 200, 300, 400] 44100 22050 = Inr out \<and>
      int (length out) = 2 \<and> list_all (\<lambda>x. - 32768 \<le> x \<and> x \<le> 32767) out"
    unfolding f by (auto simp add: list_all_iff)
  with 1 show ?thesis by simp
qed

text \<open>
  Claim C8 as stated fails: the rates are unchecked integers, and for one sample at
  44100 Hz and a destination rate of \<open>10 ^ 400\<close> the division that computes
  \<open>out_len\<close> raises OverflowError instead of returning a list.
\<close>

theorem resample_overflow_counterexample:
  "resample_linear real [0] 44100 (10 ^ 400) = Inl OverflowError"
  by (simp add: resample_linear_def py_true_div_overflows_def)

section \<open>Properties of the header codec\<close>

lemma length_le_bytes: "length (le_bytes n x) = n"
  by (induction n arbitrary: x) simp_all

lemma uint_byte_of_int: "uint (word_of_int x :: byte) = x mod 256"
  by (simp add: uint_word_of_int)

lemma le_int_le_bytes: "le_int (le_bytes n x) = x mod 2 ^ (8 * n)"
proof (induction n arbitrary: x)
  case 0
  then show ?case by simp
next
  case (Suc n)
  have "le_int (le_bytes (Suc n) x) = x mod 256 + 256 * ((x div 256) mod 2 ^ (8 * n))"
    by (simp add: Suc.IH uint_byte_of_int)
  also have "\<dots> = x mod (256 * 2 ^ (8 * n))"
    using zmod_zmult2_eq [of "2 ^ (8 * n)" x 256] by simp
  also have "(256::int) * 2 ^ (8 * n) = 2 ^ (8 * Suc n)"
    by (simp add: power_add)
  finally show ?case .
qed

lemma le_int_bounds: "0 \<le> le_int bs \<and> le_int bs < 2 ^ (8 * length bs)"
proof (induction bs)
  case Nil
  then show ?case by simp
next
  case (Cons b bs)
  have b: "0 \<le> uint b \<and> uint b < 256"
    using uint_bounded [of b] by simp
  have "uint b + 256 * le_int bs < 256 + 256 * le_int bs" using b by simp
  also have "\<dots> = 256 * (le_int bs + 1)" by simp
  also have "\<dots> \<le> 256 * 2 ^ (8 * length bs)" using Cons by simp
  finally show ?case using Cons b by (simp add: power_add)
qed

lemma struct_pack_unpack:
  assumes "struct_pack_uint n x = Inr bs"
  shows "length bs = n \<and> struct_unpack_uint n bs = Inr x"
proof -
  from assms have r: "0 \<le> x \<and> x < 2 ^ (8 * n)" and bs: "bs = le_bytes n x"
    by (auto simp add: struct_pack_uint_def split: if_splits)
  have l: "length bs = n" by (simp add: bs length_le_bytes)
  have "le_int bs = x" using r by (simp add: bs le_int_le_bytes)
  then show ?thesis using l by (simp add: struct_unpack_uint_def)
qed

lemma pack_unpack_fields:
  assumes "pack_fields (fs @ gs) = Inr bs"
  shows "unpack_fields (map fst fs) (bs @ rest) = Inr (map snd fs)"
  using assms
proof (induction fs arbitrary: bs)
  case Nil
  then show ?case by simp
next
  case (Cons f fs)
  obtain n x where f: "f = (n, x)" by (cases f)
  from Cons.prems obtain b1 b2 where
    1: "struct_pack_uint n x = Inr b1" and 2: "pack_fields (fs @ gs) = Inr b2" and
    3: "bs = b1 @ b2"
    by (auto simp add: f split: sum.splits)
  from struct_pack_unpack [OF 1]
  have l: "length b1 = n" and A: "struct_unpack_uint n b1 = Inr x" by simp_all
  show ?case
    by (simp add: f 3 l A Cons.IH [OF 2])
qed

lemma pack_fields_length:
  assumes "pack_fields fs = Inr bs"
  shows "length bs = sum_list (map fst fs)"
  using assms
proof (induction fs arbitrary: bs)
  case Nil
  then show ?case by simp
next
  case (Cons f fs)
  obtain n x where f: "f = (n, x)" by (cases f)
  from Cons.prems obtain b1 b2 where
    1: "struct_pack_uint n x = Inr b1" and 2: "pack_fields fs = Inr b2" and
    3: "bs = b1 @ b2"
    by (auto simp add: f split: sum.splits)
  from struct_pack_unpack [OF 1] Cons.IH [OF 2]
  show ?case by (simp add: f 3)
qed

lemma pack_fields_ok:
  assumes "\<forall>(n, x) \<in> set fs. 0 \<le> x \<and> x < 2 ^ (8 * n)"
  shows "\<exists>bs. pack_fields fs = Inr bs"
  using assms
  by (induction fs) (auto simp add: struct_pack_uint_def)

lemma build_fixed_header_ok:
  assumes "0 \<le> off" "off < 2 ^ 16" "0 \<le> cpf" "cpf < 2 ^ 32" "0 \<le> fc" "fc < 2 ^ 32"
    "0 \<le> st" "st < 2 ^ 8"
  shows "\<exists>hdr. build_fixed_header off cpf fc st = Inr hdr \<and> length hdr = 32 \<and>
           take 4 hdr = FSEQ_MAGIC \<and>
           unpack_fields [2, 1, 1, 2, 4, 4, 1, 1, 1, 1, 1] (drop 4 hdr @ rest) =
             Inr [off, 0, 2, 32, cpf, fc, st, 0, 0, 0, 0]"
proof -
  let ?fs = "[(2, off), (1, 0), (1, 2), (2, 32), (4, cpf), (4, fc), (1, st),
              (1, 0), (1, 0), (1, 0), (1, 0)] :: (nat \<times> int) list"
  let ?gs = "[(1, 0), (8, 0)] :: (nat \<times> int) list"
  have "\<exists>bs. pack_fields (?fs @ ?gs) = Inr bs"
    by (rule pack_fields_ok) (use assms in simp)
  then obtain bs where bs: "pack_fields (?fs @ ?gs) = Inr bs" ..
  have len: "length bs = 28" using pack_fields_length [OF bs] by simp
  have un: "unpack_fields (map fst ?fs) (bs @ rest) = Inr (map snd ?fs)"
    by (rule pack_unpack_fields [OF bs])
  have h: "build_fixed_header off cpf fc st = Inr (FSEQ_MAGIC @ bs)"
    using bs by (simp add: build_fixed_header_def)
  have un': "unpack_fields [2, 1, 1, 2, 4, 4, 1, 1, 1, 1, 1] (bs @ rest) =
               Inr [off, 0, 2, 32, cpf, fc, st, 0, 0, 0, 0]"
    using un by (simp only: list.map fst_conv snd_conv)
  have d: "drop 4 (FSEQ_MAGIC @ bs) = bs" by (simp add: FSEQ_MAGIC_def)
  show ?thesis
  proof (intro exI conjI)
    show "build_fixed_header off cpf fc st = Inr (FSEQ_MAGIC @ bs)" by (rule h)
    show "length (FSEQ_MAGIC @ bs) = 32" by (simp add: len FSEQ_MAGIC_def)
    show "take 4 (FSEQ_MAGIC @ bs) = FSEQ_MAGIC" by (simp add: FSEQ_MAGIC_def)
    show "unpack_fields [2, 1, 1, 2, 4, 4, 1, 1, 1, 1, 1] (drop 4 (FSEQ_MAGIC @ bs) @ rest) =
            Inr [off, 0, 2, 32, cpf, fc, st, 0, 0, 0, 0]"
      by (simp only: d un')
  qed
qed

text \<open>
  Claim C7. For every data offset, channel count, frame count and step time that fit
  their field widths, the fixed header that the writer builds is 32 bytes long and
  \<open>read_fseq_header\<close> reads back from it exactly the values written: the four
  variable fields, version 2.0, variable-header offset 32, and zero flags, compression
  type, compression blocks and sparse ranges.
\<close>

theorem header_round_trip:
  assumes "0 \<le> off" "off < 2 ^ 16" "0 \<le> cpf" "cpf < 2 ^ 32" "0 \<le> fc" "fc < 2 ^ 32"
    "0 \<le> st" "st < 2 ^ 8"
  shows "\<exists>hdr. build_fixed_header off cpf fc st = Inr hdr \<and> length hdr = 32 \<and>
           read_fseq_header (hdr @ rest) =
             Inr \<lparr>data_offset = off, version = (2, 0), var_header_offset = 32,
                  channel_count = cpf, frame_count = fc, step_time = st, flags = 0,
                  compression = 0, comp_blocks = 0, sparse_ranges = 0\<rparr>"
proof -
  from build_fixed_header_ok [OF assms, of rest] obtain hdr where
    h: "build_fixed_header off cpf fc st = Inr hdr" and l: "length hdr = 32" and
    m: "take 4 hdr = FSEQ_MAGIC" and
    u: "unpack_fields [2, 1, 1, 2, 4, 4, 1, 1, 1, 1, 1] (drop 4 hdr @ rest) =
          Inr [off, 0, 2, 32, cpf, fc, st, 0, 0, 0, 0]"
    by blast
  have "read_fseq_header (hdr @ rest) =
             Inr \<lparr>data_offset = off, version = (2, 0), var_header_offset = 32,
                  channel_count = cpf, frame_count = fc, step_time = st, flags = 0,
                  compression = 0, comp_blocks = 0, sparse_ranges = 0\<rparr>"
  proof -
    have t: "take 4 (hdr @ rest) = FSEQ_MAGIC" using l m by simp
    have d: "drop 4 (hdr @ rest) = drop 4 hdr @ rest" using l by simp
    show ?thesis
      unfolding read_fseq_header_def
      by (simp only: t d u) simp
  qed
  with h l show ?thesis by blast
qed

theorem header_round_trip_witness:
  "\<exists>hdr. build_fixed_header 72 2206 41 25 = Inr hdr \<and> length hdr = 32 \<and>
           read_fseq_header (hdr @ [0xAA, 0x55]) =
             Inr \<lparr>data_offset = 72, version = (2, 0), var_header_offset = 32,
                  channel_count = 2206, frame_count = 41, step_time = 25, flags = 0,
                  compression = 0, comp_blocks = 0, sparse_ranges = 0\<rparr>"
  using header_round_trip [of 72 2206 41 25 "[0xAA, 0x55]"] by simp

section \<open>Properties of the merger\<close>

lemma merged_var_header:
  "\<exists>vh. build_variable_header (ascii ''merged'') = Inr vh \<and> length vh = 40"
  by (simp add: build_variable_header_def ascii_def struct_pack_uint_def Let_def length_le_bytes)

lemma unpack_fields_bounds:
  assumes "unpack_fields ns s = Inr vs"
  shows "list_all2 (\<lambda>n v. 0 \<le> v \<and> v < 2 ^ (8 * n)) ns vs"
  using assms
proof (induction ns arbitrary: s vs)
  case Nil
  then show ?case by simp
next
  case (Cons n ns)
  from Cons.prems obtain v ws where
    1: "struct_unpack_uint n (take n s) = Inr v" and
    2: "unpack_fields ns (drop n s) = Inr ws" and 3: "vs = v # ws"
    by (auto split: sum.splits)
  from 1 have "length (take n s) = n" and "v = le_int (take n s)"
    by (auto simp add: struct_unpack_uint_def split: if_splits)
  with le_int_bounds [of "take n s"] have "0 \<le> v \<and> v < 2 ^ (8 * n)" by simp
  with Cons.IH [OF 2] show ?case by (simp add: 3)
qed

lemma read_fseq_header_bounds:
  assumes "read_fseq_header file = Inr info"
  shows "0 \<le> channel_count info \<and> channel_count info < 2 ^ 32 \<and>
         0 \<le> frame_count info \<and> frame_count info < 2 ^ 32 \<and>
         0 \<le> step_time info \<and> step_time info < 2 ^ 8"
proof -
  from assms obtain vs where
    u: "unpack_fields [2, 1, 1, 2, 4, 4, 1, 1, 1, 1, 1] (drop 4 file) = Inr vs" and
    i: "channel_count info = vs ! 4" "frame_count info = vs ! 5" "step_time info = vs ! 6"
    by (auto simp add: read_fseq_header_def split: if_splits sum.splits)
  have a: "list_all2 (\<lambda>n v. 0 \<le> v \<and> v < 2 ^ (8 * n)) [2, 1, 1, 2, 4, 4, 1, 1, 1, 1, 1] vs"
    by (rule unpack_fields_bounds [OF u])
  have "(0 \<le> vs ! 4 \<and> vs ! 4 < 2 ^ (8 * ([2, 1, 1, 2, 4, 4, 1, 1, 1, 1, 1] ! 4))) \<and>
        (0 \<le> vs ! 5 \<and> vs ! 5 < 2 ^ (8 * ([2, 1, 1, 2, 4, 4, 1, 1, 1, 1, 1] ! 5))) \<and>
        (0 \<le> vs ! 6 \<and> vs ! 6 < 2 ^ (8 * ([2, 1, 1, 2, 4, 4, 1, 1, 1, 1, 1] ! 6)))"
    using list_all2_nthD [OF a, of 4] list_all2_nthD [OF a, of 5] list_all2_nthD [OF a, of 6]
    by simp
  then show ?thesis by (simp add: i)
qed

lemma splice_nth:
  assumes "a \<le> b" "b \<le> length xs" "length ys = b - a" "c < length xs"
  shows "(take a xs @ ys @ drop b xs) ! c = (if a \<le> c \<and> c < b then ys ! (c - a) else xs ! c)"
  using assms by (auto simp add: nth_append min_def)

lemma splice_length:
  assumes "a \<le> b" "b \<le> length xs" "length ys = b - a"
  shows "length (take a xs @ ys @ drop b xs) = length xs"
  using assms by simp

lemma py_slice_assign_inside:
  assumes "0 \<le> a" "a \<le> b" "nat b \<le> length xs"
  shows "py_slice_assign xs a b ys = take (nat a) xs @ ys @ drop (nat b) xs"
proof -
  have "nat a \<le> nat b" using assms(2) by (rule nat_mono)
  then show ?thesis
    using assms by (simp add: py_slice_assign_def slice_index_def Let_def min_def max_def)
qed

lemma light_stage:
  fixes light :: "byte list" and lcc tc lfc :: int and f :: nat
  assumes "0 \<le> lcc" "lcc \<le> tc"
  defines "L \<equiv> (if int f < lfc
                 then (if int f * lcc + lcc \<le> int (length light)
                       then py_slice_assign (replicate (nat tc) 0) 0 lcc
                              (py_slice light (int f * lcc) (int f * lcc + lcc))
                       else replicate (nat tc) 0)
                 else replicate (nat tc) 0)"
  shows "length L = nat tc \<and>
         (\<forall>c < nat tc. L ! c =
            (if int f < lfc \<and> int f * lcc + lcc \<le> int (length light) \<and> int c < lcc
             then light ! (f * nat lcc + c) else 0))"
proof (cases "int f < lfc \<and> int f * lcc + lcc \<le> int (length light)")
  case False
  then have "L = replicate (nat tc) 0" by (auto simp add: L_def)
  then show ?thesis using False by auto
next
  case True
  have a: "nat (int f * lcc) = f * nat lcc" using assms(1) by (simp add: nat_mult_distrib)
  have fit: "f * nat lcc + nat lcc \<le> length light"
  proof -
    have "int (f * nat lcc + nat lcc) = int f * lcc + lcc" using assms(1) by simp
    then show ?thesis using True by linarith
  qed
  let ?row = "take (nat lcc) (drop (f * nat lcc) light)"
  have row: "py_slice light (int f * lcc) (int f * lcc + lcc) = ?row"
    using py_slice_inside [of "int f * lcc" lcc light] assms(1) fit a by simp
  have rl: "length ?row = nat lcc" using fit by simp
  have le: "nat lcc \<le> nat tc" using assms(2) by (rule nat_mono)
  have L: "L = take 0 (replicate (nat tc) 0) @ ?row @ drop (nat lcc) (replicate (nat tc) 0)"
    using True py_slice_assign_inside [of 0 lcc "replicate (nat tc) (0::byte)" ?row] assms(1) le
    by (simp add: L_def row)
  have len: "length L = nat tc"
    unfolding L using le rl by simp
  have nth: "L ! c = (if int c < lcc then light ! (f * nat lcc + c) else 0)" if "c < nat tc" for c
  proof -
    have "L ! c = (if 0 \<le> c \<and> c < nat lcc then ?row ! (c - 0) else replicate (nat tc) 0 ! c)"
      unfolding L using le rl that by (intro splice_nth) simp_all
    also have "\<dots> = (if int c < lcc then light ! (f * nat lcc + c) else 0)"
      using that fit assms(1) by (auto simp add: nat_less_iff)
    finally show ?thesis .
  qed
  show ?thesis using len nth True by simp
qed

lemma merge_frame_eq:
  fixes light :: "byte list" and lcc tc lfc acpf start :: int and f :: nat
  assumes lcc: "0 \<le> lcc" and st: "0 \<le> start" and tc: "tc = max lcc (start + acpf)"
    and au: "f < length af \<Longrightarrow> int (length (af ! f)) = acpf"
  shows "merge_frame light lcc lfc af acpf start tc (int f) =
           map (\<lambda>c. if f < length af \<and> start \<le> int c \<and> int c < start + acpf
                    then af ! f ! nat (int c - start)
                    else if int f < lfc \<and> int f * lcc + lcc \<le> int (length light) \<and> int c < lcc
                    then light ! (f * nat lcc + c) else 0)
             [0..<nat tc]"
proof -
  define L where "L = (if int f < lfc
                 then (if int f * lcc + lcc \<le> int (length light)
                       then py_slice_assign (replicate (nat tc) 0) 0 lcc
                              (py_slice light (int f * lcc) (int f * lcc + lcc))
                       else replicate (nat tc) 0)
                 else replicate (nat tc) 0)"
  have le: "lcc \<le> tc" using tc by simp
  from light_stage [OF lcc le, of f lfc light]
  have Llen: "length L = nat tc"
    and Lnth: "\<And>c. c < nat tc \<Longrightarrow> L ! c =
            (if int f < lfc \<and> int f * lcc + lcc \<le> int (length light) \<and> int c < lcc
             then light ! (f * nat lcc + c) else 0)"
    by (simp_all add: L_def)
  have mf: "merge_frame light lcc lfc af acpf start tc (int f) =
              (if f < length af then py_slice_assign L start (start + acpf) (af ! f) else L)"
    by (simp add: merge_frame_def Let_def L_def)
  show ?thesis
  proof (cases "f < length af")
    case False
    have "L = map (\<lambda>c. if int f < lfc \<and> int f * lcc + lcc \<le> int (length light) \<and> int c < lcc
                    then light ! (f * nat lcc + c) else 0) [0..<nat tc]"
      by (rule nth_equalityI) (simp_all add: Llen Lnth)
    then show ?thesis using False by (simp add: mf)
  next
    case True
    have al: "int (length (af ! f)) = acpf" by (rule au [OF True])
    then have a0: "0 \<le> acpf" by linarith
    have b: "nat (start + acpf) \<le> length L" using tc Llen by simp
    have ab: "nat start \<le> nat (start + acpf)" using a0 by simp
    have yl: "length (af ! f) = nat (start + acpf) - nat start" using al st by linarith
    have S: "py_slice_assign L start (start + acpf) (af ! f) =
               take (nat start) L @ af ! f @ drop (nat (start + acpf)) L"
      using py_slice_assign_inside [of start "start + acpf" L "af ! f"] st a0 b by simp
    have Slen: "length (take (nat start) L @ af ! f @ drop (nat (start + acpf)) L) = nat tc"
      using splice_length [OF ab b yl] Llen by simp
    have Snth: "(take (nat start) L @ af ! f @ drop (nat (start + acpf)) L) ! c =
           (if start \<le> int c \<and> int c < start + acpf then af ! f ! nat (int c - start)
            else if int f < lfc \<and> int f * lcc + lcc \<le> int (length light) \<and> int c < lcc
            then light ! (f * nat lcc + c) else 0)" if c: "c < nat tc" for c
    proof -
      have cl: "c < length L" using c Llen by simp
      have i1: "(nat start \<le> c \<and> c < nat (start + acpf)) \<longleftrightarrow>
                  (start \<le> int c \<and> int c < start + acpf)"
        using st by linarith
      have i2: "c - nat start = nat (int c - start)" using st by linarith
      show ?thesis
        using splice_nth [OF ab b yl cl] by (simp add: i1 i2 Lnth [OF c])
    qed
    have "take (nat start) L @ af ! f @ drop (nat (start + acpf)) L =
            map (\<lambda>c. if f < length af \<and> start \<le> int c \<and> int c < start + acpf
                    then af ! f ! nat (int c - start)
                    else if int f < lfc \<and> int f * lcc + lcc \<le> int (length light) \<and> int c < lcc
                    then light ! (f * nat lcc + c) else 0) [0..<nat tc]"
    proof (rule nth_equalityI)
      show "length (take (nat start) L @ af ! f @ drop (nat (start + acpf)) L) =
            length (map (\<lambda>c. if f < length af \<and> start \<le> int c \<and> int c < start + acpf
                    then af ! f ! nat (int c - start)
                    else if int f < lfc \<and> int f * lcc + lcc \<le> int (length light) \<and> int c < lcc
                    then light ! (f * nat lcc + c) else 0) [0..<nat tc])"
        using Slen by simp
    next
      fix i assume "i < length (take (nat start) L @ af ! f @ drop (nat (start + acpf)) L)"
      then have i: "i < nat tc" using Slen by simp
      show "(take (nat start) L @ af ! f @ drop (nat (start + acpf)) L) ! i =
            map (\<lambda>c. if f < length af \<and> start \<le> int c \<and> int c < start + acpf
                    then af ! f ! nat (int c - start)
                    else if int f < lfc \<and> int f * lcc + lcc \<le> int (length light) \<and> int c < lcc
                    then light ! (f * nat lcc + c) else 0) [0..<nat tc] ! i"
        using i True by (simp add: Snth [OF i])
    qed
    then show ?thesis using True by (simp add: mf S)
  qed
qed

lemma merge_frame_no_light:
  assumes "\<not> int f * lcc + lcc \<le> int (length light)"
  shows "merge_frame light lcc lfc af acpf start tc (int f) =
           (if f < length af
            then py_slice_assign (replicate (nat tc) 0) start (start + acpf) (af ! f)
            else replicate (nat tc) 0)"
  using assms by (simp add: merge_frame_def Let_def)

lemma merge_into_fseq_rows:
  fixes info :: fseq_info
  assumes R: "read_fseq_header merge_file = Inr info"
    and C: "compression info = 0" and V: "fst (version info) = 2"
    and A: "int (length af) < 2 ^ 32" and S: "start + acpf < 2 ^ 32"
  defines "tc \<equiv> max (channel_count info) (start + acpf)"
    and "tf \<equiv> max (frame_count info) (int (length af))"
  shows "\<exists>header vh.
           build_fixed_header 72 tc tf (step_time info) = Inr header \<and> length header = 32 \<and>
           build_variable_header (ascii ''merged'') = Inr vh \<and> length vh = 40 \<and>
           merge_into_fseq af acpf merge_file start =
             Inr (header @ vh @
                    concat (map (\<lambda>f. merge_frame (drop (nat (data_offset info)) merge_file)
                                       (channel_count info) (frame_count info) af acpf start tc
                                       (int f))
                              [0..<nat tf]),
                  72 + tf * tc, tc, tf)"
proof -
  from read_fseq_header_bounds [OF R]
  have b: "0 \<le> channel_count info" "channel_count info < 2 ^ 32"
    "0 \<le> frame_count info" "frame_count info < 2 ^ 32"
    "0 \<le> step_time info" "step_time info < 2 ^ 8" by simp_all
  have t1: "0 \<le> tc" "tc < 2 ^ 32" using b S by (simp_all add: tc_def)
  have t2: "0 \<le> tf" "tf < 2 ^ 32" using b A by (simp_all add: tf_def)
  have o: "(0::int) \<le> 72" "(72::int) < 2 ^ 16" by simp_all
  from build_fixed_header_ok [OF o t1 t2 b(5,6), of "[]"] obtain header where
    h: "build_fixed_header 72 tc tf (step_time info) = Inr header" "length header = 32"
    by blast
  from merged_var_header obtain vh where
    v: "build_variable_header (ascii ''merged'') = Inr vh" "length vh = 40" by blast
  have m: "merge_into_fseq af acpf merge_file start =
             Inr (header @ vh @
                    concat (map (\<lambda>f. merge_frame (drop (nat (data_offset info)) merge_file)
                                       (channel_count info) (frame_count info) af acpf start tc
                                       (int f))
                              [0..<nat tf]),
                  72 + tf * tc, tc, tf)"
    using h(1) [unfolded tc_def tf_def]
    by (simp add: merge_into_fseq_def R C V v Let_def tc_def tf_def)
  from h v m show ?thesis by blast
qed

lemma read_light_4x10:
  "read_fseq_header light_4x10 =
     Inr \<lparr>data_offset = 32, version = (2, 0), var_header_offset = 32,
          channel_count = 4, frame_count = 10, step_time = 25, flags = 0,
          compression = 0, comp_blocks = 0, sparse_ranges = 0\<rparr>"
  by code_simp

lemma read_light_truncated:
  "read_fseq_header light_truncated =
     Inr \<lparr>data_offset = 32, version = (2, 0), var_header_offset = 32,
          channel_count = 2, frame_count = 2, step_time = 25, flags = 0,
          compression = 0, comp_blocks = 0, sparse_ranges = 0\<rparr>"
  by code_simp

text \<open>
  Claim C6. The merge target is an uncompressed version 2 file holding a complete light
  grid of \<open>channel_count\<close> by \<open>frame_count\<close> bytes, every audio frame is
  \<open>audio_channels_per_frame\<close> bytes wide, the channel offset is not negative (the
  MergeSpec of the specification) and the merged dimensions fit the 32-bit header fields.
  Then the merge returns \<open>total_frames = max(light frames, audio frames)\<close> and
  \<open>total_channels = max(light channels, start_channel + audio channels)\<close>, writes a
  header with these dimensions, and the channel data is row after row the grid of
  \<open>merged_byte\<close>: the audio byte inside the audio span of an existing audio frame,
  else the light byte of an existing light row, else zero.
\<close>

theorem merge_grid:
  fixes info :: fseq_info
  assumes R: "read_fseq_header merge_file = Inr info"
    and C: "compression info = 0" and V: "fst (version info) = 2"
    and A: "int (length af) < 2 ^ 32" and S: "start + acpf < 2 ^ 32"
    and st: "0 \<le> start"
    and fr: "\<forall>a \<in> set af. int (length a) = acpf"
    and li: "channel_count info * frame_count info
               \<le> int (length (drop (nat (data_offset info)) merge_file))"
  defines "tc \<equiv> max (channel_count info) (start + acpf)"
    and "tf \<equiv> max (frame_count info) (int (length af))"
  shows "\<exists>header vh.
           build_fixed_header 72 tc tf (step_time info) = Inr header \<and> length header = 32 \<and>
           length vh = 40 \<and>
           merge_into_fseq af acpf merge_file start =
             Inr (header @ vh @
                    concat (map (\<lambda>f. map (merged_byte (drop (nat (data_offset info)) merge_file)
                                            (channel_count info) (frame_count info) af acpf
                                            start f)
                                       [0..<nat tc])
                              [0..<nat tf]),
                  72 + tf * tc, tc, tf)"
proof -
  let ?light = "drop (nat (data_offset info)) merge_file"
  let ?lcc = "channel_count info"
  let ?lfc = "frame_count info"
  from read_fseq_header_bounds [OF R] have lcc: "0 \<le> ?lcc" by simp
  have row: "merge_frame ?light ?lcc ?lfc af acpf start tc (int f) =
               map (merged_byte ?light ?lcc ?lfc af acpf start f) [0..<nat tc]" for f
  proof -
    have au: "f < length af \<Longrightarrow> int (length (af ! f)) = acpf" using fr by simp
    have avail: "int f * ?lcc + ?lcc \<le> int (length ?light)" if "int f < ?lfc"
    proof -
      have "int f + 1 \<le> ?lfc" using that by simp
      then have "(int f + 1) * ?lcc \<le> ?lfc * ?lcc" using lcc by (rule mult_right_mono)
      then show ?thesis using li by (simp add: algebra_simps)
    qed
    have t: "tc = max ?lcc (start + acpf)" by (simp add: tc_def)
    have "merge_frame ?light ?lcc ?lfc af acpf start tc (int f) =
           map (\<lambda>c. if f < length af \<and> start \<le> int c \<and> int c < start + acpf
                    then af ! f ! nat (int c - start)
                    else if int f < ?lfc \<and> int f * ?lcc + ?lcc \<le> int (length ?light) \<and>
                            int c < ?lcc
                    then ?light ! (f * nat ?lcc + c) else 0)
             [0..<nat tc]"
      using lcc st t au by (rule merge_frame_eq)
    also have "\<dots> = map (merged_byte ?light ?lcc ?lfc af acpf start f) [0..<nat tc]"
    proof (rule map_cong [OF refl])
      fix c
      show "(if f < length af \<and> start \<le> int c \<and> int c < start + acpf
             then af ! f ! nat (int c - start)
             else if int f < ?lfc \<and> int f * ?lcc + ?lcc \<le> int (length ?light) \<and>
                     int c < ?lcc
             then ?light ! (f * nat ?lcc + c) else 0) =
            merged_byte ?light ?lcc ?lfc af acpf start f c"
      proof (cases "int f < ?lfc")
        case True
        from avail [OF True] True show ?thesis
          unfolding merged_byte_def by (simp del: length_drop)
      next
        case False
        then show ?thesis unfolding merged_byte_def by (simp del: length_drop)
      qed
    qed
    finally show ?thesis .
  qed
  from merge_into_fseq_rows [OF R C V A S] obtain header vh where
    h: "build_fixed_header 72 tc tf (step_time info) = Inr header" "length header = 32"
      "length vh = 40" and
    m: "merge_into_fseq af acpf merge_file start =
             Inr (header @ vh @
                    concat (map (\<lambda>f. merge_frame ?light ?lcc ?lfc af acpf start tc (int f))
                              [0..<nat tf]),
                  72 + tf * tc, tc, tf)"
    unfolding tc_def tf_def by blast
  from h m show ?thesis by (auto simp add: row)
qed



text \<open>
  Claim C5, as amended. A merge target whose channel data is shorter than
  \<open>channel_count * frame_count\<close> is not rejected. Whatever the length of the data, the
  merge of a valid uncompressed version 2 file returns (given dimensions that fit the
  header) and writes its rows as \<open>merge_frame\<close> computes them; a row whose light row
  is not completely available receives no light bytes: it is the zero row, with the audio
  frame of that index, when there is one, assigned at the channel offset.
\<close>

theorem merge_truncated_light:
  fixes info :: fseq_info
  assumes R: "read_fseq_header merge_file = Inr info"
    and C: "compression info = 0" and V: "fst (version info) = 2"
    and A: "int (length af) < 2 ^ 32" and S: "start + acpf < 2 ^ 32"
  defines "tc \<equiv> max (channel_count info) (start + acpf)"
    and "tf \<equiv> max (frame_count info) (int (length af))"
    and "light \<equiv> drop (nat (data_offset info)) merge_file"
  shows "\<exists>header vh.
           length header = 32 \<and> length vh = 40 \<and>
           merge_into_fseq af acpf merge_file start =
             Inr (header @ vh @
                    concat (map (\<lambda>f. merge_frame light (channel_count info)
                                       (frame_count info) af acpf start tc (int f))
                              [0..<nat tf]),
                  72 + tf * tc, tc, tf) \<and>
           (\<forall>f. int (length light) < (int f + 1) * channel_count info \<longrightarrow>
              merge_frame light (channel_count info) (frame_count info) af acpf start tc
                  (int f) =
                (if f < length af
                 then py_slice_assign (replicate (nat tc) 0) start (start + acpf) (af ! f)
                 else replicate (nat tc) 0))"
proof -
  have z: "merge_frame light (channel_count info) (frame_count info) af acpf start tc (int f) =
                (if f < length af
                 then py_slice_assign (replicate (nat tc) 0) start (start + acpf) (af ! f)
                 else replicate (nat tc) 0)"
    if "int (length light) < (int f + 1) * channel_count info" for f
  proof -
    have "\<not> int f * channel_count info + channel_count info \<le> int (length light)"
      using that by (simp add: algebra_simps)
    then show ?thesis by (rule merge_frame_no_light)
  qed
  from merge_into_fseq_rows [OF R C V A S] obtain header vh where
    h: "length header = 32" "length vh = 40" and
    m: "merge_into_fseq af acpf merge_file start =
             Inr (header @ vh @
                    concat (map (\<lambda>f. merge_frame light (channel_count info)
                                       (frame_count info) af acpf start tc (int f))
                              [0..<nat tf]),
                  72 + tf * tc, tc, tf)"
    unfolding tc_def tf_def light_def by blast
  from h m z show ?thesis by blast
qed

text \<open>
  Claim C5 as stated fails: the file \<open>light_truncated\<close> declares 2 channels and 2 frames
  and holds 3 data bytes; the merge returns normally, and its channel data is the complete
  first row followed by a zero row.
\<close>

theorem merge_truncated_counterexample:
  "map_sum id (drop 72 \<circ> fst) (merge_into_fseq [] 0 light_truncated 0) = Inr [1, 2, 0, 0]"
  by code_simp

lemma example_grid:
  "concat (map (\<lambda>f. map (merged_byte (drop 32 light_4x10) 4 10
                               (replicate 15 [0xAA, 0x55, 1, 2, 3, 4]) 6 4 f) [0..<10])
             [0..<15]) =
   concat (replicate 10 [0x11, 0x11, 0x11, 0x11, 0xAA, 0x55, 1, 2, 3, 4]) @
   concat (replicate 5 [0, 0, 0, 0, 0xAA, 0x55, 1, 2, 3, 4])"
  by code_simp

text \<open>
  The example of claim C6: a light grid of 4 channels and 10 frames merged with 15 audio
  frames of 6 bytes at channel 4 gives 10 channels and 15 frames; frames 10 to 14 hold zero
  in the light channels and the audio bytes from channel 4 on.
\<close>

theorem merge_grid_witness:
  "\<exists>header vh.
     build_fixed_header 72 10 15 25 = Inr header \<and> length header = 32 \<and> length vh = 40 \<and>
     merge_into_fseq (replicate 15 [0xAA, 0x55, 1, 2, 3, 4]) 6 light_4x10 4 =
       Inr (header @ vh @
              concat (replicate 10 [0x11, 0x11, 0x11, 0x11, 0xAA, 0x55, 1, 2, 3, 4]) @
              concat (replicate 5 [0, 0, 0, 0, 0xAA, 0x55, 1, 2, 3, 4]),
            222, 10, 15)"
proof -
  let ?af = "replicate 15 [0xAA, 0x55, 1, 2, 3, 4 :: byte]"
  let ?info = "\<lparr>data_offset = 32, version = (2, 0), var_header_offset = 32,
          channel_count = 4, frame_count = 10, step_time = 25, flags = 0,
          compression = 0, comp_blocks = 0, sparse_ranges = 0\<rparr>"
  have 1: "compression ?info = 0" "fst (version ?info) = 2" by simp_all
  have 2: "int (length ?af) < 2 ^ 32" "(4::int) + 6 < 2 ^ 32" "(0::int) \<le> 4" by simp_all
  have 3: "\<forall>a \<in> set ?af. int (length a) = 6" by simp
  have 4: "channel_count ?info * frame_count ?info
             \<le> int (length (drop (nat (data_offset ?info)) light_4x10))"
    by (simp add: light_4x10_def)
  from merge_grid [OF read_light_4x10 1 2 3 4]
  show ?thesis by (simp add: example_grid)
qed


lemma truncated_rows:
  "map (\<lambda>f. merge_frame (drop 32 light_truncated) 2 2 [[9], [9]] 1 1 2 (int f)) [0..<2] =
     [[1, 9], [0, 9]]"
  by code_simp

theorem merge_truncated_light_witness:
  "\<exists>header vh.
     length header = 32 \<and> length vh = 40 \<and>
     merge_into_fseq [[9], [9]] 1 light_truncated 1 =
       Inr (header @ vh @ [1, 9, 0, 9], 76, 2, 2) \<and>
     merge_frame (drop 32 light_truncated) 2 2 [[9], [9]] 1 1 2 (int 1) = [0, 9]"
proof -
  let ?info = "\<lparr>data_offset = 32, version = (2, 0), var_header_offset = 32,
          channel_count = 2, frame_count = 2, step_time = 25, flags = 0,
          compression = 0, comp_blocks = 0, sparse_ranges = 0\<rparr>"
  have 1: "compression ?info = 0" "fst (version ?info) = 2" by simp_all
  have 2: "int (length [[9], [9 :: byte]]) < 2 ^ 32" "(1::int) + 1 < 2 ^ 32" by simp_all
  from merge_truncated_light [OF read_light_truncated 1 2]
  obtain header vh where
    h: "length header = 32" "length vh = 40" and
    m: "merge_into_fseq [[9], [9]] 1 light_truncated 1 =
          Inr (header @ vh @
                 concat (map (\<lambda>f. merge_frame (drop 32 light_truncated) 2 2 [[9], [9]] 1 1 2
                                    (int f)) [0..<2]),
               76, 2, 2)" and
    z: "\<forall>f. int (length (drop 32 light_truncated)) < (int f + 1) * 2 \<longrightarrow>
          merge_frame (drop 32 light_truncated) 2 2 [[9], [9]] 1 1 2 (int f) =
            (if f < length [[9], [9 :: byte]]
             then py_slice_assign (replicate 2 0) 1 (1 + 1) ([[9], [9]] ! f)
             else replicate 2 0)"
    by auto
  have s: "int (length (drop 32 light_truncated)) < (int 1 + 1) * 2"
    by (simp add: light_truncated_def)
  have "merge_frame (drop 32 light_truncated) 2 2 [[9], [9]] 1 1 2 (int 1) =
      py_slice_assign (replicate 2 0) 1 (1 + 1) ([[9], [9 :: byte]] ! 1)"
    using z [THEN spec, of 1] s by simp
  also have "\<dots> = [0, 9]"
    by (simp add: py_slice_assign_def slice_index_def numeral_2_eq_2)
  finally have r: "merge_frame (drop 32 light_truncated) 2 2 [[9], [9]] 1 1 2 (int 1) = [0, 9]" .
  from h m r show ?thesis by (auto simp add: truncated_rows simp del: upt_Suc)
qed

end
